theory Spec2Isabelle
  imports Main "HOL-Library.Word"
begin

unbundle bit_operations_syntax

section \<open>The machine: ARM core registers and a byte-addressed memory\<close>

text \<open>
  The interpreter header \<^verbatim>\<open>runtime/interpreter/mterp/arm/header.S\<close> is a set of
  assembler macros over the sixteen ARM core registers and memory. The model is a state
  of those registers (32-bit words) and a little-endian memory of bytes addressed by
  32-bit words. Each ARM instruction the macros emit is a function on that state; each
  macro is the composition of its instructions in the order the source lists them.
  Address arithmetic is 32-bit and wraps around. A halfword or word access reads or
  writes consecutive bytes, least significant byte first, at any address. An operand
  register is read as the value stored in it (the macros are not invoked with \<open>pc\<close> as
  an operand, whose reads the hardware offsets).
\<close>

type_synonym u8 = "8 word"
type_synonym u16 = "16 word"
type_synonym u32 = "32 word"

datatype reg = R0 | R1 | R2 | R3 | R4 | R5 | R6 | R7 | R8 | R9 | R10 | R11 | R12 | SP | LR | PC

text \<open>The single-purpose registers, as the \<^verbatim>\<open>#define\<close>s of the header name them.\<close>

abbreviation rPC :: reg where "rPC \<equiv> R4"
abbreviation rFP :: reg where "rFP \<equiv> R5"
abbreviation rSELF :: reg where "rSELF \<equiv> R6"
abbreviation rINST :: reg where "rINST \<equiv> R7"
abbreviation rIBASE :: reg where "rIBASE \<equiv> R8"
abbreviation rPROFILE :: reg where "rPROFILE \<equiv> R10"
abbreviation rREFS :: reg where "rREFS \<equiv> R11"

record cpu =
  regs :: "reg \<Rightarrow> u32"
  mem :: "u32 \<Rightarrow> u8"

definition set_reg :: "reg \<Rightarrow> u32 \<Rightarrow> cpu \<Rightarrow> cpu" where
  "set_reg r v s = s\<lparr>regs := (regs s)(r := v)\<rparr>"

subsection \<open>Memory accesses\<close>

definition load16 :: "(u32 \<Rightarrow> u8) \<Rightarrow> u32 \<Rightarrow> u16" where
  "load16 m a = ucast (m a) OR push_bit 8 (ucast (m (a + 1)))"

definition load32 :: "(u32 \<Rightarrow> u8) \<Rightarrow> u32 \<Rightarrow> u32" where
  "load32 m a =
     ucast (m a) OR push_bit 8 (ucast (m (a + 1))) OR
     push_bit 16 (ucast (m (a + 2))) OR push_bit 24 (ucast (m (a + 3)))"

definition store32 :: "(u32 \<Rightarrow> u8) \<Rightarrow> u32 \<Rightarrow> u32 \<Rightarrow> (u32 \<Rightarrow> u8)" where
  "store32 m a v =
     m(a := ucast v, a + 1 := ucast (drop_bit 8 v),
       a + 2 := ucast (drop_bit 16 v), a + 3 := ucast (drop_bit 24 v))"

subsection \<open>The instructions the macros emit\<close>

text \<open>\<^verbatim>\<open>str rt, [rn, #off]\<close>\<close>
definition str_imm :: "reg \<Rightarrow> reg \<Rightarrow> u32 \<Rightarrow> cpu \<Rightarrow> cpu" where
  "str_imm rt rn off s = s\<lparr>mem := store32 (mem s) (regs s rn + off) (regs s rt)\<rparr>"

text \<open>\<^verbatim>\<open>str rt, [rn, rm, lsl #k]\<close>\<close>
definition str_reg_lsl :: "reg \<Rightarrow> reg \<Rightarrow> reg \<Rightarrow> nat \<Rightarrow> cpu \<Rightarrow> cpu" where
  "str_reg_lsl rt rn rm k s =
     s\<lparr>mem := store32 (mem s) (regs s rn + push_bit k (regs s rm)) (regs s rt)\<rparr>"

text \<open>\<^verbatim>\<open>ldr rt, [rn, #off]\<close>\<close>
definition ldr_imm :: "reg \<Rightarrow> reg \<Rightarrow> u32 \<Rightarrow> cpu \<Rightarrow> cpu" where
  "ldr_imm rt rn off s = set_reg rt (load32 (mem s) (regs s rn + off)) s"

text \<open>\<^verbatim>\<open>ldr rt, [rn, rm, lsl #k]\<close>\<close>
definition ldr_reg_lsl :: "reg \<Rightarrow> reg \<Rightarrow> reg \<Rightarrow> nat \<Rightarrow> cpu \<Rightarrow> cpu" where
  "ldr_reg_lsl rt rn rm k s =
     set_reg rt (load32 (mem s) (regs s rn + push_bit k (regs s rm))) s"

text \<open>\<^verbatim>\<open>ldrh rt, [rn, #off]\<close>: the halfword is zero-extended.\<close>
definition ldrh_imm :: "reg \<Rightarrow> reg \<Rightarrow> u32 \<Rightarrow> cpu \<Rightarrow> cpu" where
  "ldrh_imm rt rn off s = set_reg rt (ucast (load16 (mem s) (regs s rn + off))) s"

text \<open>
  \<^verbatim>\<open>ldrh rt, [rn, #off]!\<close>: pre-indexed with write-back. The address is
  \<open>rn + off\<close>; the base register is updated to that address and the halfword is
  read from it.
\<close>
definition ldrh_pre :: "reg \<Rightarrow> reg \<Rightarrow> u32 \<Rightarrow> cpu \<Rightarrow> cpu" where
  "ldrh_pre rt rn off s =
     (let a = regs s rn + off
      in set_reg rt (ucast (load16 (mem s) a)) (set_reg rn a s))"

text \<open>\<^verbatim>\<open>ldrh rt, [rn, rm]!\<close>\<close>
definition ldrh_pre_reg :: "reg \<Rightarrow> reg \<Rightarrow> reg \<Rightarrow> cpu \<Rightarrow> cpu" where
  "ldrh_pre_reg rt rn rm s =
     (let a = regs s rn + regs s rm
      in set_reg rt (ucast (load16 (mem s) a)) (set_reg rn a s))"

text \<open>\<^verbatim>\<open>ldrsh rt, [rn, #off]\<close>: the halfword is sign-extended.\<close>
definition ldrsh_imm :: "reg \<Rightarrow> reg \<Rightarrow> u32 \<Rightarrow> cpu \<Rightarrow> cpu" where
  "ldrsh_imm rt rn off s = set_reg rt (scast (load16 (mem s) (regs s rn + off))) s"

text \<open>\<^verbatim>\<open>ldrb rt, [rn, #off]\<close>\<close>
definition ldrb_imm :: "reg \<Rightarrow> reg \<Rightarrow> u32 \<Rightarrow> cpu \<Rightarrow> cpu" where
  "ldrb_imm rt rn off s = set_reg rt (ucast (mem s (regs s rn + off))) s"

text \<open>\<^verbatim>\<open>mov rd, #imm\<close>\<close>
definition mov_imm :: "reg \<Rightarrow> u32 \<Rightarrow> cpu \<Rightarrow> cpu" where
  "mov_imm rd imm s = set_reg rd imm s"

text \<open>\<^verbatim>\<open>add rd, rn, #imm\<close>\<close>
definition add_imm :: "reg \<Rightarrow> reg \<Rightarrow> u32 \<Rightarrow> cpu \<Rightarrow> cpu" where
  "add_imm rd rn imm s = set_reg rd (regs s rn + imm) s"

text \<open>\<^verbatim>\<open>add rd, rn, rm, lsl #k\<close>\<close>
definition add_reg_lsl :: "reg \<Rightarrow> reg \<Rightarrow> reg \<Rightarrow> nat \<Rightarrow> cpu \<Rightarrow> cpu" where
  "add_reg_lsl rd rn rm k s = set_reg rd (regs s rn + push_bit k (regs s rm)) s"

text \<open>\<^verbatim>\<open>sub rd, rn, rm\<close>\<close>
definition sub_reg :: "reg \<Rightarrow> reg \<Rightarrow> reg \<Rightarrow> cpu \<Rightarrow> cpu" where
  "sub_reg rd rn rm s = set_reg rd (regs s rn - regs s rm) s"

text \<open>\<^verbatim>\<open>asr rd, #k\<close>: arithmetic shift right of \<open>rd\<close> in place.\<close>
definition asr_imm :: "reg \<Rightarrow> nat \<Rightarrow> cpu \<Rightarrow> cpu" where
  "asr_imm rd k s = set_reg rd (signed_drop_bit k (regs s rd)) s"

text \<open>\<^verbatim>\<open>and rd, rn, #imm\<close>\<close>
definition and_imm :: "reg \<Rightarrow> reg \<Rightarrow> u32 \<Rightarrow> cpu \<Rightarrow> cpu" where
  "and_imm rd rn imm s = set_reg rd (regs s rn AND imm) s"

section \<open>Constants of \<^verbatim>\<open>asm_support.h\<close>\<close>

text \<open>
  The header includes \<^verbatim>\<open>asm_support.h\<close> for the byte offsets of the shadow-frame
  fields and of the instruction array within a code item. That file is outside the
  files modelled here, so the offsets are a parameter of every macro that uses them.
\<close>

record layout =
  SHADOWFRAME_VREGS_OFFSET :: u32
  SHADOWFRAME_DEX_PC_OFFSET :: u32
  SHADOWFRAME_DEX_PC_PTR_OFFSET :: u32
  SHADOWFRAME_CODE_ITEM_OFFSET :: u32
  CODEITEM_INSNS_OFFSET :: u32

text \<open>
  \<^verbatim>\<open>#define OFF_FP(a) (a - SHADOWFRAME_VREGS_OFFSET)\<close>: \<open>rFP\<close> points at the base of
  the vregs, the other fields are reached with a backwards offset.
\<close>

definition OFF_FP :: "layout \<Rightarrow> u32 \<Rightarrow> u32" where
  "OFF_FP L a = a - SHADOWFRAME_VREGS_OFFSET L"

definition OFF_FP_DEX_PC :: "layout \<Rightarrow> u32" where
  "OFF_FP_DEX_PC L = OFF_FP L (SHADOWFRAME_DEX_PC_OFFSET L)"

definition OFF_FP_DEX_PC_PTR :: "layout \<Rightarrow> u32" where
  "OFF_FP_DEX_PC_PTR L = OFF_FP L (SHADOWFRAME_DEX_PC_PTR_OFFSET L)"

definition OFF_FP_CODE_ITEM :: "layout \<Rightarrow> u32" where
  "OFF_FP_CODE_ITEM L = OFF_FP L (SHADOWFRAME_CODE_ITEM_OFFSET L)"

section \<open>The macros of \<^verbatim>\<open>header.S\<close>\<close>

subsection \<open>Exporting the program counter\<close>

definition EXPORT_PC :: "layout \<Rightarrow> cpu \<Rightarrow> cpu" where
  "EXPORT_PC L s = str_imm rPC rFP (OFF_FP_DEX_PC_PTR L) s"

definition EXPORT_DEX_PC :: "layout \<Rightarrow> reg \<Rightarrow> cpu \<Rightarrow> cpu" where
  "EXPORT_DEX_PC L tmp s =
     (let s1 = ldr_imm tmp rFP (OFF_FP_CODE_ITEM L) s;
          s2 = str_imm rPC rFP (OFF_FP_DEX_PC_PTR L) s1;
          s3 = add_imm tmp tmp (CODEITEM_INSNS_OFFSET L) s2;
          s4 = sub_reg tmp rPC tmp s3;
          s5 = asr_imm tmp 1 s4
      in str_imm tmp rFP (OFF_FP_DEX_PC L) s5)"

subsection \<open>Fetching code units\<close>

text \<open>
  The assembler evaluates \<^verbatim>\<open>#((\count)*2)\<close>; \<open>count\<close> is an integer of the
  assembly source, the byte offset is its double as a 32-bit word.
\<close>

definition FETCH_INST :: "cpu \<Rightarrow> cpu" where
  "FETCH_INST s = ldrh_imm rINST rPC 0 s"

definition FETCH_ADVANCE_INST :: "int \<Rightarrow> cpu \<Rightarrow> cpu" where
  "FETCH_ADVANCE_INST count s = ldrh_pre rINST rPC (word_of_int (count * 2)) s"

definition PREFETCH_ADVANCE_INST :: "reg \<Rightarrow> reg \<Rightarrow> int \<Rightarrow> cpu \<Rightarrow> cpu" where
  "PREFETCH_ADVANCE_INST dreg sreg count s = ldrh_pre dreg sreg (word_of_int (count * 2)) s"

definition PREFETCH_INST :: "int \<Rightarrow> cpu \<Rightarrow> cpu" where
  "PREFETCH_INST count s = ldrh_imm rINST rPC (word_of_int (count * 2)) s"

definition ADVANCE :: "int \<Rightarrow> cpu \<Rightarrow> cpu" where
  "ADVANCE count s = add_imm rPC rPC (word_of_int (count * 2)) s"

definition FETCH_ADVANCE_INST_RB :: "reg \<Rightarrow> cpu \<Rightarrow> cpu" where
  "FETCH_ADVANCE_INST_RB r s = ldrh_pre_reg rINST rPC r s"

definition FETCH :: "reg \<Rightarrow> int \<Rightarrow> cpu \<Rightarrow> cpu" where
  "FETCH r count s = ldrh_imm r rPC (word_of_int (count * 2)) s"

definition FETCH_S :: "reg \<Rightarrow> int \<Rightarrow> cpu \<Rightarrow> cpu" where
  "FETCH_S r count s = ldrsh_imm r rPC (word_of_int (count * 2)) s"

definition FETCH_B :: "reg \<Rightarrow> int \<Rightarrow> int \<Rightarrow> cpu \<Rightarrow> cpu" where
  "FETCH_B r count byte s = ldrb_imm r rPC (word_of_int (count * 2 + byte)) s"

subsection \<open>Decoding and dispatch\<close>

definition GET_INST_OPCODE :: "reg \<Rightarrow> cpu \<Rightarrow> cpu" where
  "GET_INST_OPCODE r s = and_imm r rINST 255 s"

definition GET_PREFETCHED_OPCODE :: "reg \<Rightarrow> reg \<Rightarrow> cpu \<Rightarrow> cpu" where
  "GET_PREFETCHED_OPCODE oreg ireg s = and_imm oreg ireg 255 s"

text \<open>
  \<^verbatim>\<open>${handler_size_bits}\<close> is filled in by the generator of the interpreter from its
  configuration, which is outside the files modelled here: it is a parameter.
\<close>

definition GOTO_OPCODE :: "nat \<Rightarrow> reg \<Rightarrow> cpu \<Rightarrow> cpu" where
  "GOTO_OPCODE handler_size_bits r s = add_reg_lsl PC rIBASE r handler_size_bits s"

definition GOTO_OPCODE_BASE :: "nat \<Rightarrow> reg \<Rightarrow> reg \<Rightarrow> cpu \<Rightarrow> cpu" where
  "GOTO_OPCODE_BASE handler_size_bits base r s = add_reg_lsl PC base r handler_size_bits s"

subsection \<open>Dalvik registers and their reference shadows\<close>

definition GET_VREG :: "reg \<Rightarrow> reg \<Rightarrow> cpu \<Rightarrow> cpu" where
  "GET_VREG r vreg s = ldr_reg_lsl r rFP vreg 2 s"

definition SET_VREG :: "reg \<Rightarrow> reg \<Rightarrow> cpu \<Rightarrow> cpu" where
  "SET_VREG r vreg s =
     (let s1 = str_reg_lsl r rFP vreg 2 s;
          s2 = mov_imm r 0 s1
      in str_reg_lsl r rREFS vreg 2 s2)"

definition SET_VREG_OBJECT :: "reg \<Rightarrow> reg \<Rightarrow> reg \<Rightarrow> cpu \<Rightarrow> cpu" where
  "SET_VREG_OBJECT r vreg tmpreg s =
     (let s1 = str_reg_lsl r rFP vreg 2 s
      in str_reg_lsl r rREFS vreg 2 s1)"

definition SET_VREG_SHADOW :: "reg \<Rightarrow> reg \<Rightarrow> cpu \<Rightarrow> cpu" where
  "SET_VREG_SHADOW r vreg s = str_reg_lsl r rREFS vreg 2 s"

definition CLEAR_SHADOW_PAIR :: "reg \<Rightarrow> reg \<Rightarrow> reg \<Rightarrow> cpu \<Rightarrow> cpu" where
  "CLEAR_SHADOW_PAIR vreg tmp1 tmp2 s =
     (let s1 = mov_imm tmp1 0 s;
          s2 = add_imm tmp2 vreg 1 s1;
          s3 = SET_VREG_SHADOW tmp1 vreg s2
      in SET_VREG_SHADOW tmp1 tmp2 s3)"

definition VREG_INDEX_TO_ADDR :: "reg \<Rightarrow> reg \<Rightarrow> cpu \<Rightarrow> cpu" where
  "VREG_INDEX_TO_ADDR r vreg s = add_reg_lsl r rFP vreg 2 s"

subsection \<open>Refreshing the handler table\<close>

text \<open>\<^verbatim>\<open>THREAD_CURRENT_IBASE_OFFSET\<close> is another constant of \<^verbatim>\<open>asm_support.h\<close>.\<close>

definition REFRESH_IBASE :: "u32 \<Rightarrow> cpu \<Rightarrow> cpu" where
  "REFRESH_IBASE THREAD_CURRENT_IBASE_OFFSET s =
     ldr_imm rIBASE rSELF THREAD_CURRENT_IBASE_OFFSET s"

section \<open>The register file as the macros see it\<close>

text \<open>
  Value slot \<open>i\<close> is the 32-bit word at \<open>rFP + 4 * i\<close>, its shadow slot the word
  at \<open>rREFS + 4 * i\<close>: the addresses \<^const>\<open>GET_VREG\<close>, \<^const>\<open>SET_VREG\<close> and
  \<^const>\<open>SET_VREG_SHADOW\<close> compute.
\<close>

definition vregValue :: "cpu \<Rightarrow> u32 \<Rightarrow> u32" where
  "vregValue s i = load32 (mem s) (regs s rFP + push_bit 2 i)"

definition refShadow :: "cpu \<Rightarrow> u32 \<Rightarrow> u32" where
  "refShadow s i = load32 (mem s) (regs s rREFS + push_bit 2 i)"

definition far :: "u32 \<Rightarrow> u32 \<Rightarrow> bool" where
  \<comment> \<open>the 4-byte cells at \<open>a\<close> and at \<open>b\<close> share no byte (addresses wrap at \<open>2 ^ 32\<close>)\<close>
  "far a b \<longleftrightarrow> 4 \<le> unat (b - a) \<and> unat (b - a) \<le> 4294967292"

definition regfile_wf :: "nat \<Rightarrow> cpu \<Rightarrow> bool" where
  \<comment> \<open>a frame with \<open>n\<close> registers: the \<open>n\<close> value slots at \<open>rFP\<close> and the \<open>n\<close>
      shadow slots at \<open>rREFS\<close> do not overlap\<close>
  "regfile_wf n s \<longleftrightarrow>
     4 * n \<le> unat (regs s rREFS - regs s rFP) \<and>
     unat (regs s rREFS - regs s rFP) + 4 * n \<le> 4294967296"

subsection \<open>The operations of the register file\<close>

text \<open>
  A handler puts the register index and the value to store into scratch registers and
  invokes the macro. The operations below do that with \<open>r0\<close> for the index,
  \<open>r1\<close> for the value and \<open>r2\<close>, \<open>r3\<close> as temporaries.
\<close>

definition get :: "u32 \<Rightarrow> cpu \<Rightarrow> u32" where
  "get i s = regs (GET_VREG R1 R0 (mov_imm R0 i s)) R1"

definition setPrimitive :: "u32 \<Rightarrow> u32 \<Rightarrow> cpu \<Rightarrow> cpu" where
  "setPrimitive i v s = SET_VREG R1 R0 (mov_imm R1 v (mov_imm R0 i s))"

definition setReference :: "u32 \<Rightarrow> u32 \<Rightarrow> cpu \<Rightarrow> cpu" where
  "setReference i r s = SET_VREG_OBJECT R1 R0 R2 (mov_imm R1 r (mov_imm R0 i s))"

definition clearShadowPair :: "u32 \<Rightarrow> cpu \<Rightarrow> cpu" where
  "clearShadowPair i s = CLEAR_SHADOW_PAIR R0 R2 R3 (mov_imm R0 i s)"

datatype regop = SetPrimitive u32 u32 | SetReference u32 u32 | ClearShadowPair u32

fun exec_op :: "regop \<Rightarrow> cpu \<Rightarrow> cpu" where
  "exec_op (SetPrimitive i v) s = setPrimitive i v s"
| "exec_op (SetReference i r) s = setReference i r s"
| "exec_op (ClearShadowPair i) s = clearShadowPair i s"

definition run :: "regop list \<Rightarrow> cpu \<Rightarrow> cpu" where
  \<comment> \<open>the operations in the order of the list, head first\<close>
  "run ops s = fold exec_op ops s"

fun writes :: "regop \<Rightarrow> u32 \<Rightarrow> bool" where
  \<comment> \<open>the slots an operation writes; a pair clear writes the slots \<open>i\<close> and \<open>i + 1\<close>\<close>
  "writes (SetPrimitive i v) j = (j = i)"
| "writes (SetReference i r) j = (j = i)"
| "writes (ClearShadowPair i) j = (j = i \<or> j = i + 1)"

definition last_write :: "regop list \<Rightarrow> u32 \<Rightarrow> regop option" where
  "last_write ops j = find (\<lambda>op. writes op j) (rev ops)"

fun in_range :: "nat \<Rightarrow> regop \<Rightarrow> bool" where
  "in_range n (SetPrimitive i v) = (unat i < n)"
| "in_range n (SetReference i r) = (unat i < n)"
| "in_range n (ClearShadowPair i) = (unat i + 1 < n)"

fun stored_ref :: "regop \<Rightarrow> u32" where
  \<comment> \<open>what an operation leaves in a shadow slot it writes\<close>
  "stored_ref (SetPrimitive i v) = 0"
| "stored_ref (SetReference i r) = r"
| "stored_ref (ClearShadowPair i) = 0"

fun is_setReference :: "regop \<Rightarrow> bool" where
  "is_setReference (SetReference i r) = True"
| "is_setReference _ = False"

definition last_write_is_setReference :: "regop list \<Rightarrow> u32 \<Rightarrow> bool" where
  "last_write_is_setReference ops j =
     (case last_write ops j of None \<Rightarrow> False | Some op \<Rightarrow> is_setReference op)"

section \<open>The frame's export fields\<close>

definition exportedPC :: "layout \<Rightarrow> cpu \<Rightarrow> u32" where
  "exportedPC L s = load32 (mem s) (regs s rFP + OFF_FP_DEX_PC L)"

definition exportedPCPointer :: "layout \<Rightarrow> cpu \<Rightarrow> u32" where
  "exportedPCPointer L s = load32 (mem s) (regs s rFP + OFF_FP_DEX_PC_PTR L)"

definition codeItem :: "layout \<Rightarrow> cpu \<Rightarrow> u32" where
  "codeItem L s = load32 (mem s) (regs s rFP + OFF_FP_CODE_ITEM L)"

text \<open>
  A layout for concrete evaluations: 4-byte pointers, the pointer fields first, then
  the register count, the dex pc and the vregs.
\<close>

definition example_layout :: layout where
  "example_layout =
     \<lparr>SHADOWFRAME_VREGS_OFFSET = 32, SHADOWFRAME_DEX_PC_OFFSET = 28,
      SHADOWFRAME_DEX_PC_PTR_OFFSET = 12, SHADOWFRAME_CODE_ITEM_OFFSET = 16,
      CODEITEM_INSNS_OFFSET = 16\<rparr>"

section \<open>Dispatch\<close>

text \<open>
  Every handler ends by extracting the opcode of the fetched instruction into a scratch
  register and jumping through the handler table.
\<close>

definition dispatch :: "nat \<Rightarrow> reg \<Rightarrow> cpu \<Rightarrow> cpu" where
  "dispatch handler_size_bits r s = GOTO_OPCODE handler_size_bits r (GET_INST_OPCODE r s)"

section \<open>Concrete states\<close>

text \<open>
  A frame with 4 registers: value slots at \<open>0x1000\<close>, shadow slots at \<open>0x1010\<close>,
  every byte of memory \<open>0xFF\<close> (so every slot starts non-null), index 1 in \<open>r9\<close>.
\<close>

definition frame4 :: cpu where
  "frame4 = \<lparr>regs = (\<lambda>_. 0)(rFP := 0x1000, rREFS := 0x1010, R9 := 1), mem = (\<lambda>_. 0xFF)\<rparr>"

text \<open>
  A shadow frame at \<open>0x2000\<close> in the example layout (so \<open>rFP\<close> is \<open>0x2020\<close>): its
  code item is at \<open>0x3000\<close>, the instructions start at \<open>0x3010\<close>, the cursor is at
  the fourth code unit, and the dex-pc field holds a stale 7.
\<close>

definition export_state :: cpu where
  "export_state =
     \<lparr>regs = (\<lambda>_. 0)(rFP := 0x2020, rPC := 0x3016),
      mem = (\<lambda>_. 0)(0x2011 := 0x30, 0x201C := 7)\<rparr>"

text \<open>
  Scenario B: the cursor at unit 0 of the three code units \<open>0x1234\<close>, \<open>0x5678\<close>,
  \<open>0x9ABC\<close>, stored little-endian at \<open>0x3010\<close>.
\<close>

definition scenarioB :: cpu where
  "scenarioB =
     \<lparr>regs = (\<lambda>_. 0)(rPC := 0x3010),
      mem = (\<lambda>_. 0)(0x3010 := 0x34, 0x3011 := 0x12, 0x3012 := 0x78, 0x3013 := 0x56,
                     0x3014 := 0xBC, 0x3015 := 0x9A)\<rparr>"

text \<open>A state with the handler table at \<open>0x8000\<close> and a given instruction word.\<close>

definition dispatch_state :: "u32 \<Rightarrow> cpu" where
  "dispatch_state inst = \<lparr>regs = (\<lambda>_. 0)(rIBASE := 0x8000, rINST := inst), mem = (\<lambda>_. 0)\<rparr>"

section \<open>Locked dumps\<close>

text \<open>
  \<^verbatim>\<open>runtime/base/dumpable-inl.h\<close> defines the stream output of a
  \<open>MutatorLockedDumpable<T>\<close>: it calls
  \<^verbatim>\<open>Locks::mutator_lock_->AssertSharedHeld(Thread::Current())\<close>, then
  \<^verbatim>\<open>rhs.Dump(os)\<close>, and returns the stream. \<open>Thread::Current\<close>,
  \<open>AssertSharedHeld\<close> (of the mutator lock) and \<open>Dump\<close> are declared in headers
  outside the files modelled here; they are parameters of the model. Each of them
  runs in the state \<open>'w\<close> of the process; a call that continues returns the new
  state (\<open>Inr\<close>), a call that aborts the process returns the reason (\<open>Inl\<close>).
\<close>

definition operator_shl ::
  "('w \<Rightarrow> 'thr) \<Rightarrow> ('thr \<Rightarrow> 'w \<Rightarrow> 'e + 'w) \<Rightarrow> ('d \<Rightarrow> 'os \<Rightarrow> 'w \<Rightarrow> 'e + 'w) \<Rightarrow>
     'os \<Rightarrow> 'd \<Rightarrow> 'w \<Rightarrow> 'e + 'os \<times> 'w" where
  "operator_shl Thread_Current AssertSharedHeld Dump os rhs w =
     (case AssertSharedHeld (Thread_Current w) w of
        Inl e \<Rightarrow> Inl e
      | Inr w1 \<Rightarrow>
          (case Dump rhs os w1 of
             Inl e \<Rightarrow> Inl e
           | Inr w2 \<Rightarrow> Inr (os, w2)))"

text \<open>
  One instance of the parameters, for concrete evaluations: the state records the
  current thread, the threads holding the lock in shared mode, the text written to the
  stream and the calls made; the assertion aborts when the thread is not a holder.
\<close>

record world =
  current :: nat
  shared_holders :: "nat list"
  out :: string
  calls :: "string list"

definition ex_Thread_Current :: "world \<Rightarrow> nat" where
  "ex_Thread_Current w = current w"

definition ex_AssertSharedHeld :: "nat \<Rightarrow> world \<Rightarrow> string + world" where
  "ex_AssertSharedHeld t w =
     (if t \<in> set (shared_holders w)
      then Inr (w\<lparr>calls := calls w @ [''AssertSharedHeld'']\<rparr>)
      else Inl ''Check failed: IsSharedHeld(self)'')"

definition ex_Dump :: "string \<Rightarrow> nat \<Rightarrow> world \<Rightarrow> string + world" where
  "ex_Dump d os w = Inr (w\<lparr>out := out w @ d, calls := calls w @ [''Dump'']\<rparr>)"

definition ex_world :: "nat list \<Rightarrow> world" where
  "ex_world hs = \<lparr>current = 1, shared_holders = hs, out = [], calls = []\<rparr>"

section \<open>Registers after a store\<close>

lemma regs_set_reg: "regs (set_reg r v s) = (regs s)(r := v)"
  by (simp add: set_reg_def)

lemma mem_set_reg: "mem (set_reg r v s) = mem s"
  by (simp add: set_reg_def)

lemma regs_str_reg_lsl: "regs (str_reg_lsl rt rn rm k s) = regs s"
  by (simp add: str_reg_lsl_def)

lemma regs_str_imm: "regs (str_imm rt rn off s) = regs s"
  by (simp add: str_imm_def)

text \<open>
  C9. \<^const>\<open>SET_VREG\<close> clobbers its source operand: whatever the operands and the
  state, the source register holds 0 afterwards (it is zeroed to clear the shadow slot).
  \<^const>\<open>SET_VREG_OBJECT\<close> changes no register at all, so its source register keeps its
  value.
\<close>

theorem SET_VREG_clobbers_source:
  "regs (SET_VREG r vreg s) r = 0 \<and> regs (SET_VREG_OBJECT r vreg tmpreg s) = regs s"
  by (simp add: SET_VREG_def SET_VREG_OBJECT_def Let_def mov_imm_def
      regs_str_reg_lsl regs_set_reg)

section \<open>Memory: a load after a store\<close>

lemma load32_store32_same: "load32 (store32 m a v) a = v"
proof (rule bit_word_eqI)
  fix k :: nat
  assume "k < LENGTH(32)"
  then have k: "k < 32" by simp
  consider "k < 8" | "8 \<le> k" "k < 16" | "16 \<le> k" "k < 24" | "24 \<le> k"
    by linarith
  then show "bit (load32 (store32 m a v) a) k = bit v k"
  proof cases
    case 1
    with k show ?thesis by (auto simp add: load32_def store32_def bit_simps)
  next
    case 2
    with k show ?thesis by (auto simp add: load32_def store32_def bit_simps)
  next
    case 3
    with k show ?thesis by (auto simp add: load32_def store32_def bit_simps)
  next
    case 4
    with k show ?thesis by (auto simp add: load32_def store32_def bit_simps)
  qed
qed

lemma store32_idem: "store32 (store32 m a v) a v = store32 m a v"
  by (simp add: store32_def)

lemma far_add_ne:
  fixes d :: u32
  assumes d: "4 \<le> unat d" "unat d \<le> 4294967292" and k: "k < 4" "k' < 4"
  shows "d + of_nat k \<noteq> of_nat k'"
proof
  assume eq: "d + of_nat k = of_nat k'"
  have "unat (d + of_nat k) = (unat d + k) mod 4294967296"
    using k by (simp add: unat_word_ariths unat_of_nat)
  also have "\<dots> = unat d + k"
    using d k by simp
  finally have "4 \<le> unat (d + of_nat k)"
    using d by simp
  moreover have "unat (of_nat k' :: u32) = k'"
    using k by (simp add: unat_of_nat)
  ultimately show False
    using eq k by simp
qed

lemma far_bytes:
  fixes d :: u32
  assumes d: "4 \<le> unat d" "unat d \<le> 4294967292"
  shows "d \<noteq> 0" "d \<noteq> 1" "d \<noteq> 2" "d \<noteq> 3"
    "d + 1 \<noteq> 0" "d + 1 \<noteq> 1" "d + 1 \<noteq> 2" "d + 1 \<noteq> 3"
    "d + 2 \<noteq> 0" "d + 2 \<noteq> 1" "d + 2 \<noteq> 2" "d + 2 \<noteq> 3"
    "d + 3 \<noteq> 0" "d + 3 \<noteq> 1" "d + 3 \<noteq> 2" "d + 3 \<noteq> 3"
  using far_add_ne [OF d, of 0 0] far_add_ne [OF d, of 0 1]
    far_add_ne [OF d, of 0 2] far_add_ne [OF d, of 0 3]
    far_add_ne [OF d, of 1 0] far_add_ne [OF d, of 1 1]
    far_add_ne [OF d, of 1 2] far_add_ne [OF d, of 1 3]
    far_add_ne [OF d, of 2 0] far_add_ne [OF d, of 2 1]
    far_add_ne [OF d, of 2 2] far_add_ne [OF d, of 2 3]
    far_add_ne [OF d, of 3 0] far_add_ne [OF d, of 3 1]
    far_add_ne [OF d, of 3 2] far_add_ne [OF d, of 3 3]
  by simp_all

lemma store32_far_byte:
  fixes a b :: u32
  assumes "far a b"
  shows "store32 m a v b = m b"
    and "store32 m a v (b + 1) = m (b + 1)"
    and "store32 m a v (b + 2) = m (b + 2)"
    and "store32 m a v (b + 3) = m (b + 3)"
proof -
  define d where "d = b - a"
  have b: "b = a + d" by (simp add: d_def)
  have d: "4 \<le> unat d" "unat d \<le> 4294967292"
    using assms by (simp_all add: d_def far_def)
  show "store32 m a v b = m b"
    and "store32 m a v (b + 1) = m (b + 1)"
    and "store32 m a v (b + 2) = m (b + 2)"
    and "store32 m a v (b + 3) = m (b + 3)"
    using far_bytes [OF d] unfolding b
    by (simp_all add: store32_def add.assoc)
qed

lemma load32_store32_far:
  assumes "far a b"
  shows "load32 (store32 m a v) b = load32 m b"
  by (simp add: load32_def store32_far_byte [OF assms])

text \<open>A byte at distance 4 or more past the cell is not written.\<close>

lemma store32_byte_outside:
  fixes a b :: u32
  assumes "4 \<le> unat (b - a)"
  shows "store32 m a v b = m b"
proof -
  have "b - a \<noteq> 0" "b - a \<noteq> 1" "b - a \<noteq> 2" "b - a \<noteq> 3"
    using assms by auto
  then have "b \<noteq> a" "b \<noteq> a + 1" "b \<noteq> a + 2" "b \<noteq> a + 3"
    by (auto simp add: algebra_simps)
  then show ?thesis
    by (simp add: store32_def)
qed

section \<open>Cells that do not overlap\<close>

lemma uint_of_int_range:
  fixes x :: u32
  assumes "x = word_of_int z" "0 \<le> z" "z < 4294967296"
  shows "uint x = z"
  using assms by (simp add: uint_word_of_int take_bit_eq_mod)

lemma far_int:
  fixes a b :: u32
  assumes "b - a = word_of_int z" "4 \<le> z" "z \<le> 4294967292"
  shows "far a b"
proof -
  have "uint (b - a) = z"
    using assms by (intro uint_of_int_range) simp_all
  then have "int (unat (b - a)) = z" by simp
  with assms(2,3) have "4 \<le> int (unat (b - a))" "int (unat (b - a)) \<le> 4294967292"
    by simp_all
  then show ?thesis
    unfolding far_def by linarith
qed

lemma far_uint:
  assumes "far a b"
  shows "4 \<le> uint (b - a)" "uint (b - a) \<le> 4294967292"
proof -
  have "4 \<le> int (unat (b - a))" "int (unat (b - a)) \<le> 4294967292"
    using assms unfolding far_def by linarith+
  then show "4 \<le> uint (b - a)" "uint (b - a) \<le> 4294967292"
    by simp_all
qed

lemma far_sym:
  assumes "far a b"
  shows "far b a"
proof -
  note u = far_uint [OF assms]
  have "a - b = - (b - a)" by simp
  also have "\<dots> = word_of_int (- uint (b - a))" by simp
  also have "\<dots> = word_of_int (4294967296 - uint (b - a))"
    by (simp add: word_of_int_eq_iff take_bit_eq_mod)
  finally have "a - b = word_of_int (4294967296 - uint (b - a))" .
  moreover have "4 \<le> 4294967296 - uint (b - a)" "4294967296 - uint (b - a) \<le> 4294967292"
    using u by simp_all
  ultimately show ?thesis
    by (rule far_int)
qed

lemma far_shift: "far (c + a) (c + b) = far a b"
  by (simp add: far_def)

lemma far_next: "far a (a + 4)" "far (a + 4) a"
proof -
  show "far a (a + 4)" by (simp add: far_def)
  then show "far (a + 4) a" by (rule far_sym)
qed

lemma value_far_shadow:
  fixes i j :: u32
  assumes wf: "regfile_wf n s" and i: "unat i < n" and j: "unat j < n"
  shows "far (regs s rFP + push_bit 2 i) (regs s rREFS + push_bit 2 j)"
proof -
  define D where "D = regs s rREFS - regs s rFP"
  define z where "z = uint D + 4 * uint j - 4 * uint i"
  have "int (4 * n) \<le> int (unat D)" "int (unat D + 4 * n) \<le> int 4294967296"
    using wf unfolding regfile_wf_def D_def by (simp_all only: of_nat_le_iff)
  then have D: "4 * int n \<le> uint D" "uint D + 4 * int n \<le> 4294967296"
    by simp_all
  have "int (unat i) < int n" "int (unat j) < int n"
    using i j by (simp_all only: of_nat_less_iff)
  then have ij: "uint i < int n" "uint j < int n" "0 \<le> uint i" "0 \<le> uint j"
    by simp_all
  have "regs s rREFS + push_bit 2 j - (regs s rFP + push_bit 2 i) = word_of_int z"
    by (simp add: z_def D_def push_bit_eq_mult)
  moreover have "4 \<le> z" "z \<le> 4294967292"
    using D ij unfolding z_def by linarith+
  ultimately show ?thesis
    by (rule far_int)
qed

lemma slot_far_slot:
  fixes i j b :: u32
  assumes i: "unat i < 1073741824" and j: "unat j < 1073741824" and ne: "i \<noteq> j"
  shows "far (b + push_bit 2 i) (b + push_bit 2 j)"
proof -
  have far_lt: "far (b + push_bit 2 x) (b + push_bit 2 y)"
    if "unat x < unat y" "unat y < 1073741824" for x y :: u32
  proof -
    define z where "z = 4 * uint y - 4 * uint x"
    have "int (unat x) < int (unat y)" "int (unat y) < int 1073741824"
      using that by (simp_all only: of_nat_less_iff)
    then have xy: "uint x < uint y" "uint y < 1073741824" "0 \<le> uint x"
      by simp_all
    have "b + push_bit 2 y - (b + push_bit 2 x) = word_of_int z"
      by (simp add: z_def push_bit_eq_mult)
    moreover have "4 \<le> z" "z \<le> 4294967292"
      using xy unfolding z_def by linarith+
    ultimately show ?thesis
      by (rule far_int)
  qed
  from ne have "unat i < unat j \<or> unat j < unat i"
    by (metis nat_neq_iff word_unat_eq_iff)
  then show ?thesis
    using far_lt [of i j] far_lt [of j i] i j far_sym by blast
qed

lemma regfile_wf_bound:
  assumes "regfile_wf n s" "unat i < n"
  shows "unat i < 1073741824"
  using assms unfolding regfile_wf_def by linarith

section \<open>What the register-file operations do to registers and memory\<close>

lemma regs_setPrimitive: "regs (setPrimitive i v s) = (regs s)(R0 := i, R1 := 0)"
  by (simp add: setPrimitive_def SET_VREG_def mov_imm_def Let_def
      regs_str_reg_lsl regs_set_reg)

lemma mem_setPrimitive:
  "mem (setPrimitive i v s) =
     store32 (store32 (mem s) (regs s rFP + push_bit 2 i) v) (regs s rREFS + push_bit 2 i) 0"
  by (simp add: setPrimitive_def SET_VREG_def mov_imm_def Let_def str_reg_lsl_def set_reg_def)

lemma regs_setReference: "regs (setReference i r s) = (regs s)(R0 := i, R1 := r)"
  by (simp add: setReference_def SET_VREG_OBJECT_def mov_imm_def Let_def
      regs_str_reg_lsl regs_set_reg)

lemma mem_setReference:
  "mem (setReference i r s) =
     store32 (store32 (mem s) (regs s rFP + push_bit 2 i) r) (regs s rREFS + push_bit 2 i) r"
  by (simp add: setReference_def SET_VREG_OBJECT_def mov_imm_def Let_def str_reg_lsl_def
      set_reg_def)

lemma regs_clearShadowPair:
  "regs (clearShadowPair i s) = (regs s)(R0 := i, R2 := 0, R3 := i + 1)"
  by (simp add: clearShadowPair_def CLEAR_SHADOW_PAIR_def SET_VREG_SHADOW_def mov_imm_def
      add_imm_def Let_def regs_str_reg_lsl regs_set_reg)

lemma mem_clearShadowPair:
  "mem (clearShadowPair i s) =
     store32 (store32 (mem s) (regs s rREFS + push_bit 2 i) 0)
       (regs s rREFS + push_bit 2 (i + 1)) 0"
  by (simp add: clearShadowPair_def CLEAR_SHADOW_PAIR_def SET_VREG_SHADOW_def mov_imm_def
      add_imm_def Let_def str_reg_lsl_def set_reg_def)

lemma get_eq: "get i s = vregValue s i"
  by (simp add: get_def GET_VREG_def ldr_reg_lsl_def mov_imm_def set_reg_def vregValue_def)

lemma push_bit_2_Suc: "push_bit 2 (i + 1 :: u32) = push_bit 2 i + 4"
  by (simp add: push_bit_eq_mult distrib_right)

lemma regfile_wf_cong:
  assumes "regs s' rFP = regs s rFP" "regs s' rREFS = regs s rREFS"
  shows "regfile_wf n s' = regfile_wf n s"
  by (simp add: regfile_wf_def assms)

lemma regfile_wf_exec_op: "regfile_wf n (exec_op op s) = regfile_wf n s"
proof (cases op)
  case (SetPrimitive i v)
  then show ?thesis
    by (simp add: regfile_wf_cong [of "setPrimitive i v s" s] regs_setPrimitive)
next
  case (SetReference i r)
  then show ?thesis
    by (simp add: regfile_wf_cong [of "setReference i r s" s] regs_setReference)
next
  case (ClearShadowPair i)
  then show ?thesis
    by (simp add: regfile_wf_cong [of "clearShadowPair i s" s] regs_clearShadowPair)
qed

section \<open>The shadow slots after one operation\<close>

lemma refShadow_setPrimitive:
  assumes wf: "regfile_wf n s" and i: "unat i < n" and j: "unat j < n"
  shows "refShadow (setPrimitive i v s) j = (if j = i then 0 else refShadow s j)"
proof (cases "j = i")
  case True
  then show ?thesis
    by (simp add: refShadow_def regs_setPrimitive mem_setPrimitive load32_store32_same)
next
  case False
  have "far (regs s rREFS + push_bit 2 i) (regs s rREFS + push_bit 2 j)"
    using False regfile_wf_bound [OF wf i] regfile_wf_bound [OF wf j]
    by (intro slot_far_slot) simp_all
  moreover have "far (regs s rFP + push_bit 2 i) (regs s rREFS + push_bit 2 j)"
    using wf i j by (rule value_far_shadow)
  ultimately show ?thesis
    using False
    by (simp add: refShadow_def regs_setPrimitive mem_setPrimitive load32_store32_far)
qed

lemma refShadow_setReference:
  assumes wf: "regfile_wf n s" and i: "unat i < n" and j: "unat j < n"
  shows "refShadow (setReference i r s) j = (if j = i then r else refShadow s j)"
proof (cases "j = i")
  case True
  then show ?thesis
    by (simp add: refShadow_def regs_setReference mem_setReference load32_store32_same)
next
  case False
  have "far (regs s rREFS + push_bit 2 i) (regs s rREFS + push_bit 2 j)"
    using False regfile_wf_bound [OF wf i] regfile_wf_bound [OF wf j]
    by (intro slot_far_slot) simp_all
  moreover have "far (regs s rFP + push_bit 2 i) (regs s rREFS + push_bit 2 j)"
    using wf i j by (rule value_far_shadow)
  ultimately show ?thesis
    using False
    by (simp add: refShadow_def regs_setReference mem_setReference load32_store32_far)
qed

lemma unat_Suc_index:
  fixes i :: u32
  assumes "unat i + 1 < n" "n \<le> 1073741824"
  shows "unat (i + 1) = unat i + 1"
  using assms by (simp add: unat_word_ariths)

lemma regfile_wf_size: "regfile_wf n s \<Longrightarrow> n \<le> 1073741824"
  unfolding regfile_wf_def by linarith

lemma refShadow_clearShadowPair:
  assumes wf: "regfile_wf n s" and i: "unat i + 1 < n" and j: "unat j < n"
  shows "refShadow (clearShadowPair i s) j =
    (if j = i \<or> j = i + 1 then 0 else refShadow s j)"
proof -
  let ?S = "regs s rREFS"
  have i1: "unat (i + 1) < 1073741824" and i0: "unat i < 1073741824"
    using unat_Suc_index [OF i regfile_wf_size [OF wf]] i regfile_wf_size [OF wf]
    by simp_all
  have j0: "unat j < 1073741824"
    using regfile_wf_bound [OF wf j] .
  consider "j = i + 1" | "j = i" | "j \<noteq> i" "j \<noteq> i + 1"
    by blast
  then show ?thesis
  proof cases
    case 1
    then show ?thesis
      by (simp add: refShadow_def regs_clearShadowPair mem_clearShadowPair
          load32_store32_same)
  next
    case 2
    have "far (?S + push_bit 2 (i + 1)) (?S + push_bit 2 i)"
      using i0 i1 by (intro slot_far_slot) simp_all
    with 2 show ?thesis
      by (simp add: refShadow_def regs_clearShadowPair mem_clearShadowPair
          load32_store32_same load32_store32_far)
  next
    case 3
    have "far (?S + push_bit 2 (i + 1)) (?S + push_bit 2 j)"
      "far (?S + push_bit 2 i) (?S + push_bit 2 j)"
      using 3 i0 i1 j0 by (auto intro!: slot_far_slot)
    with 3 show ?thesis
      by (simp add: refShadow_def regs_clearShadowPair mem_clearShadowPair
          load32_store32_far)
  qed
qed

lemma refShadow_exec_op:
  assumes "regfile_wf n s" "in_range n op" "unat j < n"
  shows "refShadow (exec_op op s) j = (if writes op j then stored_ref op else refShadow s j)"
  using assms
  by (cases op)
    (simp_all add: refShadow_setPrimitive refShadow_setReference refShadow_clearShadowPair)

section \<open>The shadow slots after a sequence of operations\<close>

lemma run_snoc: "run (ops @ [op]) s = exec_op op (run ops s)"
  by (simp add: run_def)

lemma last_write_snoc:
  "last_write (ops @ [op]) j = (if writes op j then Some op else last_write ops j)"
  by (simp add: last_write_def)

lemma regfile_wf_run: "regfile_wf n (run ops s) = regfile_wf n s"
  by (induction ops rule: rev_induct) (simp_all add: run_def regfile_wf_exec_op)

lemma refShadow_run:
  assumes wf: "regfile_wf n s" and j: "unat j < n"
  shows "\<forall>op \<in> set ops. in_range n op \<Longrightarrow>
    refShadow (run ops s) j =
      (case last_write ops j of None \<Rightarrow> refShadow s j | Some op \<Rightarrow> stored_ref op)"
proof (induction ops rule: rev_induct)
  case Nil
  show ?case by (simp add: run_def last_write_def)
next
  case (snoc op ops)
  then have IH: "refShadow (run ops s) j =
      (case last_write ops j of None \<Rightarrow> refShadow s j | Some op \<Rightarrow> stored_ref op)"
    and op: "in_range n op"
    by simp_all
  have "regfile_wf n (run ops s)"
    using wf by (simp add: regfile_wf_run)
  then have "refShadow (exec_op op (run ops s)) j =
      (if writes op j then stored_ref op else refShadow (run ops s) j)"
    using op j by (rule refShadow_exec_op)
  then show ?case
    by (simp add: run_snoc last_write_snoc IH)
qed

section \<open>Clearing a pair of shadow slots\<close>

lemma CLEAR_SHADOW_PAIR_effect:
  assumes "vreg \<noteq> tmp1" "vreg \<noteq> tmp2" "tmp1 \<noteq> tmp2" "tmp1 \<noteq> rREFS" "tmp2 \<noteq> rREFS"
  shows "regs (CLEAR_SHADOW_PAIR vreg tmp1 tmp2 s) = (regs s)(tmp1 := 0, tmp2 := regs s vreg + 1)"
    and "mem (CLEAR_SHADOW_PAIR vreg tmp1 tmp2 s) =
      store32 (store32 (mem s) (regs s rREFS + push_bit 2 (regs s vreg)) 0)
        (regs s rREFS + push_bit 2 (regs s vreg + 1)) 0"
  using assms
  by (simp_all add: CLEAR_SHADOW_PAIR_def SET_VREG_SHADOW_def mov_imm_def add_imm_def
      Let_def str_reg_lsl_def set_reg_def)

lemma shadow_addr_Suc:
  "b + push_bit 2 (i + 1 :: u32) = b + push_bit 2 i + 4"
  by (simp add: push_bit_2_Suc)

text \<open>
  C5. Whatever the shadow slots held before, after \<^const>\<open>CLEAR_SHADOW_PAIR\<close> on the
  index \<open>i\<close> held in \<open>vreg\<close> both \<open>refShadow[i]\<close> and \<open>refShadow[i + 1]\<close> are
  zero. The index is arbitrary (the two cells are adjacent and never overlap, even when
  the address wraps); the operands are three different registers and the temporaries
  are not \<open>rREFS\<close>, as in every invocation.
\<close>

theorem CLEAR_SHADOW_PAIR_clears_both:
  assumes "vreg \<noteq> tmp1" "vreg \<noteq> tmp2" "tmp1 \<noteq> tmp2" "tmp1 \<noteq> rREFS" "tmp2 \<noteq> rREFS"
  shows "refShadow (CLEAR_SHADOW_PAIR vreg tmp1 tmp2 s) (regs s vreg) = 0 \<and>
         refShadow (CLEAR_SHADOW_PAIR vreg tmp1 tmp2 s) (regs s vreg + 1) = 0"
proof -
  let ?s' = "CLEAR_SHADOW_PAIR vreg tmp1 tmp2 s"
  let ?A = "regs s rREFS + push_bit 2 (regs s vreg)"
  have r: "regs ?s' rREFS = regs s rREFS"
    using assms by (simp add: CLEAR_SHADOW_PAIR_effect)
  have m: "mem ?s' = store32 (store32 (mem s) ?A 0) (?A + 4) 0"
    by (simp only: CLEAR_SHADOW_PAIR_effect(2) [OF assms] shadow_addr_Suc)
  have "load32 (mem ?s') ?A = 0"
    by (simp only: m load32_store32_far [OF far_next(2)] load32_store32_same)
  moreover have "load32 (mem ?s') (?A + 4) = 0"
    by (simp only: m load32_store32_same)
  ultimately show ?thesis
    by (simp only: refShadow_def r shadow_addr_Suc)
qed

theorem CLEAR_SHADOW_PAIR_clears_both_witness:
  "refShadow frame4 1 = 0xFFFFFFFF \<and> refShadow frame4 2 = 0xFFFFFFFF \<and>
   refShadow (CLEAR_SHADOW_PAIR R9 R2 R3 frame4) 1 = 0 \<and>
   refShadow (CLEAR_SHADOW_PAIR R9 R2 R3 frame4) 2 = 0"
  using CLEAR_SHADOW_PAIR_clears_both [of R9 R2 R3 frame4]
  by (simp add: frame4_def refShadow_def load32_def)

lemma store32_pair_byte_outside:
  fixes A a :: u32
  assumes "8 \<le> unat (a - A)"
  shows "store32 (store32 m A v) (A + 4) w a = m a"
proof -
  have "4 \<le> a - A"
    using assms by (simp add: word_le_nat_alt)
  then have "unat (a - A - 4) = unat (a - A) - 4"
    by (simp add: unat_sub)
  then have "4 \<le> unat (a - (A + 4))"
    using assms by (simp add: diff_diff_eq)
  then have "store32 (store32 m A v) (A + 4) w a = store32 m A v a"
    by (rule store32_byte_outside)
  also have "\<dots> = m a"
    using assms by (intro store32_byte_outside) simp
  finally show ?thesis .
qed

lemma vregValue_clear_pair:
  assumes wf: "regfile_wf n s" and i: "unat i + 1 < n" and j: "unat j < n"
  shows "load32 (store32 (store32 (mem s) (regs s rREFS + push_bit 2 i) v)
            (regs s rREFS + push_bit 2 (i + 1)) w) (regs s rFP + push_bit 2 j) =
         load32 (mem s) (regs s rFP + push_bit 2 j)"
proof -
  have i1: "unat (i + 1) < n"
    using unat_Suc_index [OF i regfile_wf_size [OF wf]] i by simp
  have "far (regs s rREFS + push_bit 2 (i + 1)) (regs s rFP + push_bit 2 j)"
    by (rule far_sym) (rule value_far_shadow [OF wf j i1])
  moreover have "unat i < n"
    using i by simp
  then have "far (regs s rREFS + push_bit 2 i) (regs s rFP + push_bit 2 j)"
    by (intro far_sym [OF value_far_shadow [OF wf j]])
  ultimately show ?thesis
    by (simp add: load32_store32_far)
qed

lemma refShadow_clear_pair:
  assumes wf: "regfile_wf n s" and i: "unat i + 1 < n" and j: "unat j < n"
    and ne: "j \<noteq> i" "j \<noteq> i + 1"
  shows "load32 (store32 (store32 (mem s) (regs s rREFS + push_bit 2 i) v)
            (regs s rREFS + push_bit 2 (i + 1)) w) (regs s rREFS + push_bit 2 j) =
         load32 (mem s) (regs s rREFS + push_bit 2 j)"
proof -
  have "unat (i + 1) < 1073741824" "unat i < 1073741824" "unat j < 1073741824"
    using unat_Suc_index [OF i regfile_wf_size [OF wf]] i j regfile_wf_size [OF wf]
    by simp_all
  then have "far (regs s rREFS + push_bit 2 (i + 1)) (regs s rREFS + push_bit 2 j)"
    "far (regs s rREFS + push_bit 2 i) (regs s rREFS + push_bit 2 j)"
    using ne by (auto intro!: slot_far_slot)
  then show ?thesis
    by (simp add: load32_store32_far)
qed

text \<open>
  C10. \<^const>\<open>CLEAR_SHADOW_PAIR\<close> on the index \<open>i\<close> of a frame with \<open>n\<close> registers
  (\<open>i + 1 < n\<close>) changes the two shadow slots \<open>i\<close> and \<open>i + 1\<close> only: every value
  slot and every other shadow slot of the frame reads as before, and no byte of memory
  outside the eight bytes of the two shadow slots changes. The temporaries are scratch
  registers, different from the index register, from each other and from \<open>rFP\<close> and
  \<open>rREFS\<close>.
\<close>

theorem CLEAR_SHADOW_PAIR_frame:
  assumes ops: "vreg \<noteq> tmp1" "vreg \<noteq> tmp2" "tmp1 \<noteq> tmp2" "tmp1 \<noteq> rREFS" "tmp2 \<noteq> rREFS"
    and fp: "tmp1 \<noteq> rFP" "tmp2 \<noteq> rFP"
    and wf: "regfile_wf n s" and i: "unat (regs s vreg) + 1 < n" and j: "unat j < n"
  shows "vregValue (CLEAR_SHADOW_PAIR vreg tmp1 tmp2 s) j = vregValue s j \<and>
    (j \<noteq> regs s vreg \<and> j \<noteq> regs s vreg + 1 \<longrightarrow>
       refShadow (CLEAR_SHADOW_PAIR vreg tmp1 tmp2 s) j = refShadow s j) \<and>
    (\<forall>a. 8 \<le> unat (a - (regs s rREFS + push_bit 2 (regs s vreg))) \<longrightarrow>
       mem (CLEAR_SHADOW_PAIR vreg tmp1 tmp2 s) a = mem s a)"
proof (intro conjI impI allI)
  let ?s' = "CLEAR_SHADOW_PAIR vreg tmp1 tmp2 s"
  note eff = CLEAR_SHADOW_PAIR_effect [OF ops]
  have r: "regs ?s' rFP = regs s rFP" "regs ?s' rREFS = regs s rREFS"
    using ops fp by (simp_all add: eff)
  show "vregValue ?s' j = vregValue s j"
    unfolding vregValue_def r eff(2) using wf i j by (rule vregValue_clear_pair)
  show "refShadow ?s' j = refShadow s j"
    if "j \<noteq> regs s vreg \<and> j \<noteq> regs s vreg + 1"
    unfolding refShadow_def r eff(2) using wf i j that by (intro refShadow_clear_pair) simp_all
  show "mem ?s' a = mem s a"
    if "8 \<le> unat (a - (regs s rREFS + push_bit 2 (regs s vreg)))" for a
    unfolding eff(2) shadow_addr_Suc using that by (rule store32_pair_byte_outside)
qed

theorem CLEAR_SHADOW_PAIR_frame_witness:
  "regfile_wf 4 frame4 \<and> unat (regs frame4 R9) + 1 < 4 \<and>
   vregValue (CLEAR_SHADOW_PAIR R9 R2 R3 frame4) 1 = 0xFFFFFFFF \<and>
   refShadow (CLEAR_SHADOW_PAIR R9 R2 R3 frame4) 3 = 0xFFFFFFFF \<and>
   mem (CLEAR_SHADOW_PAIR R9 R2 R3 frame4) 0x101C = 0xFF"
proof -
  have wf: "regfile_wf 4 frame4" and i: "unat (regs frame4 R9) + 1 < 4"
    by (simp_all add: regfile_wf_def frame4_def)
  have v: "vregValue frame4 1 = 0xFFFFFFFF" "refShadow frame4 3 = 0xFFFFFFFF"
    "mem frame4 0x101C = 0xFF" "regs frame4 R9 = 1" "regs frame4 rREFS = 0x1010"
    by (simp_all add: frame4_def vregValue_def refShadow_def load32_def)
  show ?thesis
    using CLEAR_SHADOW_PAIR_frame [of R9 R2 R3 4 frame4 1, OF _ _ _ _ _ _ _ wf i]
      CLEAR_SHADOW_PAIR_frame [of R9 R2 R3 4 frame4 3, OF _ _ _ _ _ _ _ wf i] wf i
    by (simp add: v)
qed

section \<open>Values and shadows after writes\<close>

lemma vregValue_setPrimitive:
  assumes wf: "regfile_wf n s" and i: "unat i < n"
  shows "vregValue (setPrimitive i v s) i = v"
proof -
  have "far (regs s rREFS + push_bit 2 i) (regs s rFP + push_bit 2 i)"
    by (rule far_sym) (rule value_far_shadow [OF wf i i])
  then show ?thesis
    by (simp add: vregValue_def regs_setPrimitive mem_setPrimitive load32_store32_far
        load32_store32_same)
qed

lemma vregValue_setReference:
  assumes wf: "regfile_wf n s" and i: "unat i < n"
  shows "vregValue (setReference i r s) i = r"
proof -
  have "far (regs s rREFS + push_bit 2 i) (regs s rFP + push_bit 2 i)"
    by (rule far_sym) (rule value_far_shadow [OF wf i i])
  then show ?thesis
    by (simp add: vregValue_def regs_setReference mem_setReference load32_store32_far
        load32_store32_same)
qed

lemma regfile_wf_setReference: "regfile_wf n (setReference i r s) = regfile_wf n s"
  using regfile_wf_exec_op [of n "SetReference i r" s] by simp

text \<open>
  C6 (scenario A). In a frame with 4 registers, after \<open>setReference(2, objA)\<close> and then
  \<open>setPrimitive(2, 5)\<close>, \<open>get(2)\<close> returns 5 and \<open>refShadow[2]\<close> is null, for every
  reference \<open>objA\<close> and every prior content of the frame.
\<close>

theorem scenario_A:
  assumes "regfile_wf 4 s"
  shows "get 2 (setPrimitive 2 5 (setReference 2 objA s)) = 5 \<and>
         refShadow (setPrimitive 2 5 (setReference 2 objA s)) 2 = 0"
proof -
  have wf: "regfile_wf 4 (setReference 2 objA s)"
    using assms by (simp add: regfile_wf_setReference)
  have "unat (2 :: u32) < 4" by simp
  then show ?thesis
    using vregValue_setPrimitive [OF wf, of 2 5] refShadow_setPrimitive [OF wf, of 2 2 5]
    by (simp add: get_eq)
qed

theorem scenario_A_witness:
  "regfile_wf 4 frame4 \<and>
   refShadow (setReference 2 0x12345678 frame4) 2 = 0x12345678 \<and>
   get 2 (setPrimitive 2 5 (setReference 2 0x12345678 frame4)) = 5 \<and>
   refShadow (setPrimitive 2 5 (setReference 2 0x12345678 frame4)) 2 = 0"
proof -
  have wf: "regfile_wf 4 frame4"
    by (simp add: regfile_wf_def frame4_def)
  have "refShadow (setReference 2 0x12345678 frame4) 2 = 0x12345678"
    by (simp add: refShadow_def regs_setReference mem_setReference load32_store32_same)
  then show ?thesis
    using scenario_A [OF wf, of "0x12345678"] wf by simp
qed

text \<open>
  C1, as the code has it. In a frame with \<open>n\<close> registers and for operations on indices in
  range, the shadow slot \<open>j\<close> after a sequence of operations holds what the most recent
  write to slot \<open>j\<close> left there: the reference itself after a \<open>setReference\<close>, null
  after a \<open>setPrimitive\<close> or a pair clear covering \<open>j\<close>; a slot that no operation
  wrote keeps its initial shadow. So, for a slot written at least once, the shadow is
  non-null iff the most recent write was a \<open>setReference\<close> of a non-null reference.
  A single \<open>setPrimitive\<close> leaves the value in the value slot and null in the shadow
  slot; a single \<open>setReference\<close> leaves the same reference in both.
\<close>

theorem refShadow_after_run:
  assumes wf: "regfile_wf n s" and ops: "list_all (in_range n) ops" and j: "unat j < n"
  shows "refShadow (run ops s) j =
      (case last_write ops j of None \<Rightarrow> refShadow s j | Some op \<Rightarrow> stored_ref op) \<and>
    (\<forall>op. last_write ops j = Some op \<longrightarrow>
       (refShadow (run ops s) j \<noteq> 0 \<longleftrightarrow> is_setReference op \<and> stored_ref op \<noteq> 0)) \<and>
    vregValue (setPrimitive j v s) j = v \<and> refShadow (setPrimitive j v s) j = 0 \<and>
    vregValue (setReference j r s) j = r \<and> refShadow (setReference j r s) j = r"
proof -
  have all: "\<forall>op \<in> set ops. in_range n op"
    using ops by (simp add: list_all_iff)
  have run: "refShadow (run ops s) j =
      (case last_write ops j of None \<Rightarrow> refShadow s j | Some op \<Rightarrow> stored_ref op)"
    using wf j all by (rule refShadow_run)
  have nz: "refShadow (run ops s) j \<noteq> 0 \<longleftrightarrow> is_setReference op \<and> stored_ref op \<noteq> 0"
    if "last_write ops j = Some op" for op
    using that run by (cases op) simp_all
  show ?thesis
    using run nz vregValue_setPrimitive [OF wf j] vregValue_setReference [OF wf j]
      refShadow_setPrimitive [OF wf j j] refShadow_setReference [OF wf j j]
    by simp
qed

theorem refShadow_after_run_witness:
  "regfile_wf 4 frame4 \<and>
   list_all (in_range 4) [SetReference 2 0x2000, ClearShadowPair 0, SetPrimitive 3 7] \<and>
   last_write [SetReference 2 0x2000, ClearShadowPair 0, SetPrimitive 3 7] 2 =
     Some (SetReference 2 0x2000) \<and>
   refShadow (run [SetReference 2 0x2000, ClearShadowPair 0, SetPrimitive 3 7] frame4) 2 =
     0x2000"
proof -
  have wf: "regfile_wf 4 frame4"
    by (simp add: regfile_wf_def frame4_def)
  have ops: "list_all (in_range 4) [SetReference 2 0x2000, ClearShadowPair 0, SetPrimitive 3 7]"
    by simp
  have lw: "last_write [SetReference 2 0x2000, ClearShadowPair 0, SetPrimitive 3 7] 2 =
     Some (SetReference 2 0x2000)"
    by (simp add: last_write_def)
  show ?thesis
    using refShadow_after_run [OF wf ops, of 2] wf ops lw by simp
qed

text \<open>
  C1 as stated fails when the reference stored is null: the most recent write to slot 2
  is a \<open>setReference\<close>, and the shadow slot is null. It also fails for a slot that was
  never written and whose shadow is non-null from the start.
\<close>

theorem null_reference_counterexample:
  "regfile_wf 4 frame4 \<and> in_range 4 (SetReference 2 0) \<and>
   \<not> (refShadow (run [SetReference 2 0] frame4) 2 \<noteq> 0 \<longleftrightarrow>
        last_write_is_setReference [SetReference 2 0] 2) \<and>
   \<not> (refShadow (run [] frame4) 2 \<noteq> 0 \<longleftrightarrow> last_write_is_setReference [] 2)"
proof -
  have "refShadow (run [SetReference 2 0] frame4) 2 = 0"
    by (simp add: run_def refShadow_def regs_setReference mem_setReference
        load32_store32_same)
  moreover have "last_write_is_setReference [SetReference 2 0] 2"
    by (simp add: last_write_is_setReference_def last_write_def)
  moreover have "regfile_wf 4 frame4"
    by (simp add: regfile_wf_def frame4_def)
  moreover have "refShadow (run [] frame4) 2 = 0xFFFFFFFF"
    by (simp add: run_def refShadow_def frame4_def load32_def)
  moreover have "\<not> last_write_is_setReference [] 2"
    by (simp add: last_write_is_setReference_def last_write_def)
  ultimately show ?thesis by simp
qed

section \<open>Exporting the program counter\<close>

lemma EXPORT_PC_effect:
  "regs (EXPORT_PC L s) = regs s"
  "mem (EXPORT_PC L s) = store32 (mem s) (regs s rFP + OFF_FP_DEX_PC_PTR L) (regs s rPC)"
  by (simp_all add: EXPORT_PC_def str_imm_def)

lemma EXPORT_DEX_PC_effect:
  assumes "tmp \<noteq> rPC" "tmp \<noteq> rFP"
  shows "regs (EXPORT_DEX_PC L tmp s) rFP = regs s rFP"
    and "mem (EXPORT_DEX_PC L tmp s) =
      store32 (store32 (mem s) (regs s rFP + OFF_FP_DEX_PC_PTR L) (regs s rPC))
        (regs s rFP + OFF_FP_DEX_PC L)
        (signed_drop_bit 1 (regs s rPC - (codeItem L s + CODEITEM_INSNS_OFFSET L)))"
  using assms
  by (simp_all add: EXPORT_DEX_PC_def Let_def str_imm_def ldr_imm_def add_imm_def sub_reg_def
      asr_imm_def set_reg_def codeItem_def)

text \<open>
  C7. \<^const>\<open>EXPORT_PC\<close> is idempotent: run twice with nothing in between, it leaves
  exactly the state one run leaves, and so the same export fields.
\<close>

theorem EXPORT_PC_idempotent:
  "EXPORT_PC L (EXPORT_PC L s) = EXPORT_PC L s \<and>
   exportedPC L (EXPORT_PC L (EXPORT_PC L s)) = exportedPC L (EXPORT_PC L s) \<and>
   exportedPCPointer L (EXPORT_PC L (EXPORT_PC L s)) = exportedPCPointer L (EXPORT_PC L s)"
proof -
  have "EXPORT_PC L (EXPORT_PC L s) = EXPORT_PC L s"
    by (simp add: EXPORT_PC_def str_imm_def store32_idem)
  then show ?thesis by simp
qed

text \<open>
  C3, as the code has it. \<^const>\<open>EXPORT_PC\<close> copies the cursor \<open>rPC\<close> into the
  pointer field (\<open>OFF_FP_DEX_PC_PTR\<close>) only; the dex-pc field (\<open>OFF_FP_DEX_PC\<close>) keeps
  what it held. \<^const>\<open>EXPORT_DEX_PC\<close> is the macro that writes both: the cursor into
  the pointer field, and into the dex-pc field the instruction offset, that is the
  distance in 16-bit units from the first instruction of the code item to the cursor.
  The two fields are distinct 4-byte cells, and the temporary of \<^const>\<open>EXPORT_DEX_PC\<close>
  is neither \<open>rPC\<close> nor \<open>rFP\<close>.
\<close>

theorem EXPORT_PC_fields:
  assumes fields: "far (OFF_FP_DEX_PC_PTR L) (OFF_FP_DEX_PC L)"
    and tmp: "tmp \<noteq> rPC" "tmp \<noteq> rFP"
  shows "exportedPCPointer L (EXPORT_PC L s) = regs s rPC \<and>
    exportedPC L (EXPORT_PC L s) = exportedPC L s \<and>
    exportedPCPointer L (EXPORT_DEX_PC L tmp s) = regs s rPC \<and>
    exportedPC L (EXPORT_DEX_PC L tmp s) =
      signed_drop_bit 1 (regs s rPC - (codeItem L s + CODEITEM_INSNS_OFFSET L))"
proof -
  let ?p = "regs s rFP + OFF_FP_DEX_PC_PTR L" and ?d = "regs s rFP + OFF_FP_DEX_PC L"
  have pd: "far ?p ?d"
    using fields by (simp only: far_shift)
  then have dp: "far ?d ?p"
    by (rule far_sym)
  have "exportedPCPointer L (EXPORT_PC L s) = regs s rPC"
    by (simp add: exportedPCPointer_def EXPORT_PC_effect load32_store32_same)
  moreover have "exportedPC L (EXPORT_PC L s) = exportedPC L s"
    by (simp add: exportedPC_def EXPORT_PC_effect load32_store32_far [OF pd])
  moreover have "exportedPCPointer L (EXPORT_DEX_PC L tmp s) = regs s rPC"
    by (simp add: exportedPCPointer_def EXPORT_DEX_PC_effect [OF tmp]
        load32_store32_far [OF dp] load32_store32_same)
  moreover have "exportedPC L (EXPORT_DEX_PC L tmp s) =
      signed_drop_bit 1 (regs s rPC - (codeItem L s + CODEITEM_INSNS_OFFSET L))"
    by (simp add: exportedPC_def EXPORT_DEX_PC_effect [OF tmp] load32_store32_same)
  ultimately show ?thesis by simp
qed

lemma export_state_fields:
  "regs export_state rPC = 0x3016" "regs export_state rFP = 0x2020"
  "exportedPC example_layout export_state = 7"
  "codeItem example_layout export_state = 0x3000"
  "far (OFF_FP_DEX_PC_PTR example_layout) (OFF_FP_DEX_PC example_layout)"
  "CODEITEM_INSNS_OFFSET example_layout = 16"
  by (simp_all add: export_state_def exportedPC_def codeItem_def example_layout_def
      OFF_FP_DEX_PC_def OFF_FP_DEX_PC_PTR_def OFF_FP_CODE_ITEM_def OFF_FP_def load32_def far_def)

lemma asr_6: "signed_drop_bit (Suc 0) (6 :: u32) = 3"
  by (rule signed_word_eqI) (simp add: sint_signed_drop_bit_eq drop_bit_eq_div)

theorem EXPORT_PC_fields_witness:
  "far (OFF_FP_DEX_PC_PTR example_layout) (OFF_FP_DEX_PC example_layout) \<and>
   exportedPCPointer example_layout (EXPORT_PC example_layout export_state) = 0x3016 \<and>
   exportedPC example_layout (EXPORT_PC example_layout export_state) = 7 \<and>
   exportedPCPointer example_layout (EXPORT_DEX_PC example_layout R0 export_state) = 0x3016 \<and>
   exportedPC example_layout (EXPORT_DEX_PC example_layout R0 export_state) = 3"
  using EXPORT_PC_fields [of example_layout R0 export_state]
  by (simp add: export_state_fields asr_6)

text \<open>
  C3 as stated fails: with the cursor at \<open>0x3016\<close> and 7 in the dex-pc field,
  \<^const>\<open>EXPORT_PC\<close> leaves 7 there.
\<close>

theorem EXPORT_PC_counterexample:
  "regs export_state rPC = 0x3016 \<and>
   exportedPC example_layout export_state = 7 \<and>
   exportedPC example_layout (EXPORT_PC example_layout export_state) = 7 \<and>
   exportedPC example_layout (EXPORT_PC example_layout export_state) \<noteq> regs export_state rPC"
proof -
  have "exportedPC example_layout (EXPORT_PC example_layout export_state) = 7"
    by (simp add: exportedPC_def EXPORT_PC_effect export_state_def example_layout_def
      OFF_FP_DEX_PC_def OFF_FP_DEX_PC_PTR_def OFF_FP_def load32_def store32_def)
  then show ?thesis
    by (simp add: export_state_fields)
qed

section \<open>Fetching\<close>

lemma FETCH_INST_effect:
  "regs (FETCH_INST s) = (regs s)(rINST := ucast (load16 (mem s) (regs s rPC)))"
  "mem (FETCH_INST s) = mem s"
  by (simp_all add: FETCH_INST_def ldrh_imm_def set_reg_def)

lemma FETCH_ADVANCE_INST_effect:
  "regs (FETCH_ADVANCE_INST c s) =
     (regs s)(rPC := regs s rPC + word_of_int (c * 2),
              rINST := ucast (load16 (mem s) (regs s rPC + word_of_int (c * 2))))"
  "mem (FETCH_ADVANCE_INST c s) = mem s"
  by (simp_all add: FETCH_ADVANCE_INST_def ldrh_pre_def Let_def set_reg_def)

lemma FETCH_INST_funpow:
  assumes "regs s rINST = ucast (load16 (mem s) (regs s rPC))"
  shows "regs ((FETCH_INST ^^ k) s) = regs s \<and> mem ((FETCH_INST ^^ k) s) = mem s"
proof (induction k)
  case 0
  show ?case by simp
next
  case (Suc k)
  then show ?case
    using assms by (simp add: FETCH_INST_effect fun_upd_idem)
qed

text \<open>
  C2 (scenario B), as the code has it. \<^const>\<open>FETCH_ADVANCE_INST\<close> is a pre-indexed load
  with write-back: it moves the cursor forward by \<open>count\<close> code units and then reads
  the unit at the new cursor. With the cursor at unit 0 of the stream
  \<open>[0x1234, 0x5678, 0x9ABC]\<close>, \<open>fetchAdvance(1)\<close> returns \<open>0x5678\<close> and leaves the
  cursor at unit 1, and any number of \<open>fetch()\<close> calls after it return \<open>0x5678\<close> and
  leave the cursor at unit 1.
\<close>

theorem scenario_B:
  assumes "load16 (mem s) (regs s rPC) = 0x1234"
    and "load16 (mem s) (regs s rPC + 2) = 0x5678"
    and "load16 (mem s) (regs s rPC + 4) = 0x9ABC"
  shows "regs (FETCH_ADVANCE_INST 1 s) rINST = 0x5678 \<and>
    regs (FETCH_ADVANCE_INST 1 s) rPC = regs s rPC + 2 \<and>
    (\<forall>k. regs ((FETCH_INST ^^ k) (FETCH_ADVANCE_INST 1 s)) rINST = 0x5678 \<and>
         regs ((FETCH_INST ^^ k) (FETCH_ADVANCE_INST 1 s)) rPC = regs s rPC + 2) \<and>
    regs (FETCH_ADVANCE_INST c s) rPC = regs s rPC + word_of_int (c * 2) \<and>
    regs (FETCH_ADVANCE_INST c s) rINST =
      ucast (load16 (mem s) (regs s rPC + word_of_int (c * 2)))"
proof -
  let ?s1 = "FETCH_ADVANCE_INST 1 s"
  have r: "regs ?s1 rINST = 0x5678" "regs ?s1 rPC = regs s rPC + 2"
    using assms(2) by (simp_all add: FETCH_ADVANCE_INST_effect)
  have "regs ?s1 rINST = ucast (load16 (mem ?s1) (regs ?s1 rPC))"
    by (simp add: FETCH_ADVANCE_INST_effect)
  then have "regs ((FETCH_INST ^^ k) ?s1) = regs ?s1" for k
    using FETCH_INST_funpow [of ?s1 k] by simp
  then show ?thesis
    using r by (simp add: FETCH_ADVANCE_INST_effect)
qed

lemma scenarioB_stream:
  "load16 (mem scenarioB) (regs scenarioB rPC) = 0x1234"
  "load16 (mem scenarioB) (regs scenarioB rPC + 2) = 0x5678"
  "load16 (mem scenarioB) (regs scenarioB rPC + 4) = 0x9ABC"
  "regs scenarioB rPC = 0x3010"
  "load16 (mem scenarioB) 0x3010 = 0x1234"
  "load16 (mem scenarioB) 0x3012 = 0x5678"
  "load16 (mem scenarioB) 0x3014 = 0x9ABC"
  by (simp_all add: scenarioB_def load16_def)

theorem scenario_B_witness:
  "load16 (mem scenarioB) (regs scenarioB rPC) = 0x1234 \<and>
   load16 (mem scenarioB) (regs scenarioB rPC + 2) = 0x5678 \<and>
   load16 (mem scenarioB) (regs scenarioB rPC + 4) = 0x9ABC \<and>
   regs (FETCH_ADVANCE_INST 1 scenarioB) rINST = 0x5678 \<and>
   regs (FETCH_ADVANCE_INST 1 scenarioB) rPC = 0x3012 \<and>
   regs (FETCH_INST (FETCH_INST (FETCH_ADVANCE_INST 1 scenarioB))) rINST = 0x5678 \<and>
   regs (FETCH_INST (FETCH_INST (FETCH_ADVANCE_INST 1 scenarioB))) rPC = 0x3012"
proof -
  note t = scenario_B [OF scenarioB_stream(1,2,3), of 1]
  have "(FETCH_INST ^^ 2) (FETCH_ADVANCE_INST 1 scenarioB) =
      FETCH_INST (FETCH_INST (FETCH_ADVANCE_INST 1 scenarioB))"
    by (simp add: numeral_2_eq_2)
  then show ?thesis
    using t [THEN conjunct2, THEN conjunct2, THEN conjunct1, THEN spec, of 2] t
    by (simp add: scenarioB_stream)
qed

text \<open>
  C2 as stated fails: \<open>fetchAdvance(1)\<close> from unit 0 does not return \<open>0x1234\<close>, the unit
  it started on.
\<close>

theorem scenario_B_counterexample:
  "regs scenarioB rPC = 0x3010 \<and>
   load16 (mem scenarioB) 0x3010 = 0x1234 \<and>
   load16 (mem scenarioB) 0x3012 = 0x5678 \<and>
   load16 (mem scenarioB) 0x3014 = 0x9ABC \<and>
   regs (FETCH_ADVANCE_INST 1 scenarioB) rINST \<noteq> 0x1234"
  by (simp add: FETCH_ADVANCE_INST_effect scenarioB_def load16_def)

section \<open>Dispatch through the handler table\<close>

lemma GET_INST_OPCODE_effect:
  "regs (GET_INST_OPCODE r s) = (regs s)(r := regs s rINST AND 255)"
  by (simp add: GET_INST_OPCODE_def and_imm_def set_reg_def)

lemma dispatch_PC:
  assumes "r \<noteq> rIBASE"
  shows "regs (dispatch n r s) PC = regs s rIBASE + push_bit n (regs s rINST AND 255)"
  using assms
  by (simp add: dispatch_def GOTO_OPCODE_def add_reg_lsl_def GET_INST_OPCODE_effect set_reg_def)

lemma opcode_bound: "unat (w AND 255 :: u32) < 256"
proof -
  have "w AND 255 \<le> 255"
    by (rule word_and_le1)
  then have "unat (w AND 255) \<le> unat (255 :: u32)"
    by (simp only: word_le_nat_alt)
  then show ?thesis by simp
qed

lemma entry_offset_fits:
  assumes "k < 256" "n \<le> 24"
  shows "k * 2 ^ n < (4294967296 :: nat)"
proof -
  have "(2 :: nat) ^ n \<le> 2 ^ 24"
    using assms(2) by (intro power_increasing) simp_all
  then have "k * 2 ^ n \<le> 255 * 2 ^ 24"
    using assms(1) by (intro mult_mono) simp_all
  also have "\<dots> < (4294967296 :: nat)" by simp
  finally show ?thesis .
qed

lemma unat_entry_offset:
  fixes x :: u32
  assumes "unat x < 256" "n \<le> 24"
  shows "unat (push_bit n x) = unat x * 2 ^ n"
proof -
  have "unat (push_bit n x) = (unat x * 2 ^ n) mod 2 ^ 32"
    by (simp only: unsigned_push_bit_eq) (simp add: take_bit_eq_mod push_bit_eq_mult)
  also have "\<dots> = unat x * 2 ^ n"
    using entry_offset_fits [OF assms] by simp
  finally show ?thesis .
qed

lemma entry_offset_inj:
  fixes x y :: u32
  assumes "unat x < 256" "unat y < 256" "n \<le> 24" "push_bit n x = push_bit n y"
  shows "x = y"
proof -
  have "unat x * 2 ^ n = unat y * 2 ^ n"
    using assms unat_entry_offset [of x n] unat_entry_offset [of y n] by simp
  then have "unat x = unat y" by simp
  then show ?thesis by (simp only: word_unat_eq_iff)
qed

text \<open>
  C4. For a handler table that fits the address space (\<open>256\<close> entries of \<open>2 ^ n\<close> bytes,
  so \<open>n \<le> 24\<close>): the opcode extracted by \<^const>\<open>GET_INST_OPCODE\<close> is the low byte of
  the instruction word, a value below 256; \<^const>\<open>GOTO_OPCODE\<close> jumps to
  \<open>rIBASE + (opcode << n)\<close>, whose offset from the base is \<open>opcode * 2 ^ n\<close>, the start
  of entry \<open>opcode\<close> of the 256 entries; different opcodes jump to different entries;
  and the entries of the opcodes \<open>0x00\<close> and \<open>0xFF\<close> are \<open>255 * 2 ^ n\<close> bytes apart.
  The scratch register holding the opcode is not \<open>rIBASE\<close>.
\<close>

theorem dispatch_total:
  assumes bits: "n \<le> 24" and r: "r \<noteq> rIBASE"
  shows "regs (GET_INST_OPCODE r s) r = regs s rINST AND 255 \<and>
    unat (regs (GET_INST_OPCODE r s) r) < 256 \<and>
    regs (dispatch n r s) PC = regs s rIBASE + push_bit n (regs s rINST AND 255) \<and>
    unat (regs (dispatch n r s) PC - regs s rIBASE) = unat (regs s rINST AND 255) * 2 ^ n \<and>
    unat (regs (dispatch n r s) PC - regs s rIBASE) < 256 * 2 ^ n \<and>
    (regs t rIBASE = regs s rIBASE \<and> regs (dispatch n r t) PC = regs (dispatch n r s) PC
       \<longrightarrow> regs t rINST AND 255 = regs s rINST AND 255) \<and>
    (regs t rIBASE = regs s rIBASE \<and> regs s rINST AND 255 = 0 \<and> regs t rINST AND 255 = 255
       \<longrightarrow> regs (dispatch n r t) PC - regs (dispatch n r s) PC = 255 * 2 ^ n \<and>
           regs (dispatch n r t) PC \<noteq> regs (dispatch n r s) PC)"
proof -
  let ?op = "\<lambda>s. regs s rINST AND 255"
  note pc = dispatch_PC [OF r]
  have op: "regs (GET_INST_OPCODE r s) r = ?op s"
    by (simp add: GET_INST_OPCODE_effect)
  have "regs (dispatch n r s) PC - regs s rIBASE = push_bit n (?op s)"
    by (simp only: pc add_diff_cancel_left')
  then have off: "unat (regs (dispatch n r s) PC - regs s rIBASE) = unat (?op s) * 2 ^ n"
    by (simp only: unat_entry_offset [OF opcode_bound bits])
  have lt: "unat (?op s) * 2 ^ n < 256 * 2 ^ n"
    using opcode_bound [of "regs s rINST"] by simp
  have inj: "?op t = ?op s"
    if "regs t rIBASE = regs s rIBASE \<and> regs (dispatch n r t) PC = regs (dispatch n r s) PC"
  proof -
    from that have b: "regs t rIBASE = regs s rIBASE"
      and "regs (dispatch n r t) PC = regs (dispatch n r s) PC"
      by simp_all
    then have "regs s rIBASE + push_bit n (?op t) = regs s rIBASE + push_bit n (?op s)"
      by (simp only: pc)
    then have "push_bit n (?op t) = push_bit n (?op s)"
      by (simp only: add_left_cancel)
    with opcode_bound opcode_bound bits show ?thesis
      by (rule entry_offset_inj)
  qed
  have ends: "regs (dispatch n r t) PC - regs (dispatch n r s) PC = 255 * 2 ^ n \<and>
      regs (dispatch n r t) PC \<noteq> regs (dispatch n r s) PC"
    if h: "regs t rIBASE = regs s rIBASE \<and> ?op s = 0 \<and> ?op t = 255"
  proof -
    have "regs (dispatch n r t) PC - regs (dispatch n r s) PC =
        push_bit n (?op t) - push_bit n (?op s)"
      using h by (simp only: pc add_diff_cancel_left)
    also have "\<dots> = push_bit n 255 - push_bit n 0"
      using h by (simp only:)
    also have "\<dots> = 255 * 2 ^ n"
      by (simp add: push_bit_eq_mult)
    finally have d: "regs (dispatch n r t) PC - regs (dispatch n r s) PC = 255 * 2 ^ n" .
    have "regs (dispatch n r t) PC \<noteq> regs (dispatch n r s) PC"
    proof
      assume "regs (dispatch n r t) PC = regs (dispatch n r s) PC"
      with h inj have "?op t = ?op s" by blast
      moreover from h have "?op s = 0" "?op t = 255" by simp_all
      ultimately have "(255 :: u32) = 0" by (simp only:)
      then show False by simp
    qed
    with d show ?thesis by simp
  qed
  have c2: "unat (regs (GET_INST_OPCODE r s) r) < 256"
    by (simp only: op opcode_bound)
  have c5: "unat (regs (dispatch n r s) PC - regs s rIBASE) < 256 * 2 ^ n"
    by (simp only: off lt)
  have c6: "regs t rIBASE = regs s rIBASE \<and>
      regs (dispatch n r t) PC = regs (dispatch n r s) PC \<longrightarrow> ?op t = ?op s"
    using inj by blast
  have c7: "regs t rIBASE = regs s rIBASE \<and> ?op s = 0 \<and> ?op t = 255 \<longrightarrow>
      regs (dispatch n r t) PC - regs (dispatch n r s) PC = 255 * 2 ^ n \<and>
      regs (dispatch n r t) PC \<noteq> regs (dispatch n r s) PC"
    using ends by blast
  show ?thesis
    by (intro conjI) (rule op c2 pc off c5 c6 c7)+
qed

theorem dispatch_total_witness:
  "regs (GET_INST_OPCODE R12 (dispatch_state 0x12FF)) R12 = 0xFF \<and>
   regs (dispatch 7 R12 (dispatch_state 0x1200)) PC = 0x8000 \<and>
   regs (dispatch 7 R12 (dispatch_state 0x12FF)) PC = 0xFF80 \<and>
   regs (dispatch 7 R12 (dispatch_state 0x12FF)) PC -
     regs (dispatch 7 R12 (dispatch_state 0x1200)) PC = 255 * 128"
proof -
  have b: "(7 :: nat) \<le> 24" and r: "R12 \<noteq> rIBASE"
    by simp_all
  have s: "regs (dispatch_state w) rINST = w" "regs (dispatch_state w) rIBASE = 0x8000" for w
    by (simp_all add: dispatch_state_def)
  have m: "(0x1200 :: u32) AND 255 = 0" "(0x12FF :: u32) AND 255 = 255"
    by simp_all
  show ?thesis
    using dispatch_total [OF b r, of "dispatch_state 0x12FF" "dispatch_state 0x1200"]
      dispatch_total [OF b r, of "dispatch_state 0x1200" "dispatch_state 0x12FF"]
    by (simp add: s m)
qed

section \<open>The locked dump\<close>

text \<open>
  C8. The stream output of a \<open>MutatorLockedDumpable\<close> asserts the shared hold of the
  mutator lock by the current thread first and calls \<open>Dump\<close> only then: if the
  assertion aborts, the operator aborts with it whatever \<open>Dump\<close> is; if it passes,
  the operator is \<open>Dump\<close> on the wrapped object and the stream, run in the state the
  assertion left, and returns the stream; so an operator that returns has passed the
  assertion before dumping.
\<close>

theorem locked_dump_asserts_first:
  "(AssertSharedHeld (Thread_Current w) w = Inl e \<longrightarrow>
      operator_shl Thread_Current AssertSharedHeld Dump os rhs w = Inl e) \<and>
   (AssertSharedHeld (Thread_Current w) w = Inr w1 \<longrightarrow>
      operator_shl Thread_Current AssertSharedHeld Dump os rhs w =
        (case Dump rhs os w1 of Inl e' \<Rightarrow> Inl e' | Inr w2 \<Rightarrow> Inr (os, w2))) \<and>
   (operator_shl Thread_Current AssertSharedHeld Dump os rhs w = Inr (os', w') \<longrightarrow>
      os' = os \<and>
      (\<exists>w1. AssertSharedHeld (Thread_Current w) w = Inr w1 \<and> Dump rhs os w1 = Inr w'))"
  by (auto simp add: operator_shl_def split: sum.splits)

theorem locked_dump_asserts_first_witness:
  "operator_shl ex_Thread_Current ex_AssertSharedHeld ex_Dump (3 :: nat) ''regs'' (ex_world [1, 2]) =
     Inr (3, \<lparr>current = 1, shared_holders = [1, 2], out = ''regs'',
               calls = [''AssertSharedHeld'', ''Dump'']\<rparr>) \<and>
   operator_shl ex_Thread_Current ex_AssertSharedHeld ex_Dump (3 :: nat) ''regs'' (ex_world [2]) =
     Inl ''Check failed: IsSharedHeld(self)''"
proof -
  have held: "ex_AssertSharedHeld (ex_Thread_Current (ex_world [1, 2])) (ex_world [1, 2]) =
      Inr (\<lparr>current = 1, shared_holders = [1, 2], out = [], calls = [''AssertSharedHeld'']\<rparr>)"
    by (simp add: ex_AssertSharedHeld_def ex_Thread_Current_def ex_world_def)
  have not_held: "ex_AssertSharedHeld (ex_Thread_Current (ex_world [2])) (ex_world [2]) =
      Inl ''Check failed: IsSharedHeld(self)''"
    by (simp add: ex_AssertSharedHeld_def ex_Thread_Current_def ex_world_def)
  show ?thesis
    using locked_dump_asserts_first [where AssertSharedHeld = ex_AssertSharedHeld
        and Thread_Current = ex_Thread_Current and w = "ex_world [1, 2]" and Dump = ex_Dump
        and os = "3 :: nat" and rhs = "''regs''", THEN conjunct2, THEN conjunct1, rule_format,
        OF held]
      locked_dump_asserts_first [where AssertSharedHeld = ex_AssertSharedHeld
        and Thread_Current = ex_Thread_Current and w = "ex_world [2]" and Dump = ex_Dump
        and os = "3 :: nat" and rhs = "''regs''", THEN conjunct1, rule_format, OF not_held]
    by (simp add: ex_Dump_def)
qed

end
